theory Spec2Isabelle
  imports Complex_Main
begin

section \<open>Naive Bayes classifier: the embedding\<close>

text \<open>
  The source is \<^verbatim>\<open>src/naive_bayes/naive_bayes_classifier.py\<close>, one class
  \<^verbatim>\<open>NaiveBayesClassifier\<close> with the methods \<^verbatim>\<open>__init__\<close>, \<^verbatim>\<open>train\<close>,
  \<^verbatim>\<open>predict\<close> and \<^verbatim>\<open>accuracy\<close>.

  Conventions of the embedding:
  \<^item> a Python \<^verbatim>\<open>float\<close> is a \<^typ>\<open>real\<close>: arithmetic is exact, rounding, overflow and
    underflow of IEEE doubles are not part of the model;
  \<^item> Python's true division \<^verbatim>\<open>a / b\<close> of two \<^verbatim>\<open>int\<close>s raises \<^verbatim>\<open>ZeroDivisionError\<close>
    when \<^verbatim>\<open>b == 0\<close>; every division of the source has that branch written out;
  \<^item> a document is the list of its tokens in iteration order (a Python set of words is a
    list without repetitions);
  \<^item> a \<^verbatim>\<open>dict\<close> is an association list in insertion order;
  \<^item> instance attributes are the fields of a record that every method takes and, when it
    assigns to them, returns.
\<close>

subsection \<open>Errors\<close>

datatype error = ZeroDivisionError

subsection \<open>Dictionaries with a default\<close>

type_synonym 'v pydict = "(string \<times> 'v) list"

text \<open>\<^verbatim>\<open>d[k] = v\<close>: an existing key keeps its position, a new key goes to the end.\<close>

fun dict_set :: "'v pydict \<Rightarrow> string \<Rightarrow> 'v \<Rightarrow> 'v pydict" where
  "dict_set [] k v = [(k, v)]"
| "dict_set ((k', v') # d) k v =
     (if k' = k then (k', v) # d else (k', v') # dict_set d k v)"

definition dict_keys :: "'v pydict \<Rightarrow> string list" where
  "dict_keys d = map fst d"

text \<open>
  Reading \<^verbatim>\<open>d[k]\<close> on a \<^verbatim>\<open>defaultdict\<close>: the value is the stored one, or the default
  when the key is missing (\<open>dd_get\<close>); a missing key is also inserted with the default
  (\<open>dd_touch\<close>).
\<close>

definition dd_get :: "'v pydict \<Rightarrow> 'v \<Rightarrow> string \<Rightarrow> 'v" where
  "dd_get d dflt k = (case map_of d k of None \<Rightarrow> dflt | Some v \<Rightarrow> v)"

definition dd_touch :: "'v pydict \<Rightarrow> 'v \<Rightarrow> string \<Rightarrow> 'v pydict" where
  "dd_touch d dflt k = (case map_of d k of None \<Rightarrow> d @ [(k, dflt)] | Some v \<Rightarrow> d)"

text \<open>\<^verbatim>\<open>d[k] += 1\<close> on a \<^verbatim>\<open>defaultdict(int)\<close>: read (inserting the default), add, store.\<close>

definition dd_incr :: "nat pydict \<Rightarrow> string \<Rightarrow> nat pydict" where
  "dd_incr d k = dict_set (dd_touch d 0 k) k (dd_get d 0 k + 1)"

subsection \<open>The classifier's state\<close>

record classifier =
  spam_word_count :: "nat pydict"
  ham_word_count :: "nat pydict"
  spam_email_count :: nat
  ham_email_count :: nat
  total_emails :: nat
  p_spam :: real
  p_ham :: real
  p_word_given_spam :: "real pydict"
  p_word_given_ham :: "real pydict"
  words :: "string set"

text \<open>\<^verbatim>\<open>__init__\<close>\<close>

definition init :: classifier where
  "init = \<lparr> spam_word_count = [], ham_word_count = [],
            spam_email_count = 0, ham_email_count = 0, total_emails = 0,
            p_spam = 0, p_ham = 0,
            p_word_given_spam = [], p_word_given_ham = [],
            words = {} \<rparr>"

subsection \<open>\<^verbatim>\<open>train\<close>\<close>

text \<open>\<^verbatim>\<open>sum(1 for label in labels if label == v)\<close>\<close>

definition count_label :: "string \<Rightarrow> string list \<Rightarrow> nat" where
  "count_label v labels = sum_list (map (\<lambda>label. 1) (filter (\<lambda>label. label = v) labels))"

text \<open>\<^verbatim>\<open>for word in email: counts[word] += 1\<close>\<close>

fun count_words_in :: "nat pydict \<Rightarrow> string list \<Rightarrow> nat pydict" where
  "count_words_in d [] = d"
| "count_words_in d (word # email) = count_words_in (dd_incr d word) email"

text \<open>The loop over \<^verbatim>\<open>zip(emails, labels)\<close> (lines 78 to 84).\<close>

fun count_loop :: "classifier \<Rightarrow> (string list \<times> string) list \<Rightarrow> classifier" where
  "count_loop c [] = c"
| "count_loop c ((email, label) # rest) =
     (if label = ''spam'' then
        count_loop (c\<lparr>spam_word_count := count_words_in (spam_word_count c) email\<rparr>) rest
      else if label = ''ham'' then
        count_loop (c\<lparr>ham_word_count := count_words_in (ham_word_count c) email\<rparr>) rest
      else count_loop c rest)"

text \<open>
  The loop of lines 93 to 95, with smoothing. Reading \<^verbatim>\<open>self.spam_word_count[word]\<close>
  inserts a missing key; the divisors are at least 2, so no division raises.
\<close>

fun smoothed_loop :: "classifier \<Rightarrow> string list \<Rightarrow> classifier" where
  "smoothed_loop c [] = c"
| "smoothed_loop c (word # rest) =
     (let c1 = c\<lparr>spam_word_count := dd_touch (spam_word_count c) 0 word\<rparr>;
          c2 = c1\<lparr>p_word_given_spam := dict_set (p_word_given_spam c1) word
                 (real (dd_get (spam_word_count c1) 0 word + 1) / real (spam_email_count c1 + 2))\<rparr>;
          c3 = c2\<lparr>ham_word_count := dd_touch (ham_word_count c2) 0 word\<rparr>;
          c4 = c3\<lparr>p_word_given_ham := dict_set (p_word_given_ham c3) word
                 (real (dd_get (ham_word_count c3) 0 word + 1) / real (ham_email_count c3 + 2))\<rparr>
      in smoothed_loop c4 rest)"

text \<open>
  The loop of lines 97 to 99, without smoothing. Each division raises when the class
  count is 0; the read of the word count (and its key insertion) comes before it, the
  assignment after it.
\<close>

fun unsmoothed_loop :: "classifier \<Rightarrow> string list \<Rightarrow> (error + unit) \<times> classifier" where
  "unsmoothed_loop c [] = (Inr (), c)"
| "unsmoothed_loop c (word # rest) =
     (let c1 = c\<lparr>spam_word_count := dd_touch (spam_word_count c) 0 word\<rparr> in
      if spam_email_count c1 = 0 then (Inl ZeroDivisionError, c1)
      else
        let c2 = c1\<lparr>p_word_given_spam := dict_set (p_word_given_spam c1) word
                   (real (dd_get (spam_word_count c1) 0 word) / real (spam_email_count c1))\<rparr>;
            c3 = c2\<lparr>ham_word_count := dd_touch (ham_word_count c2) 0 word\<rparr> in
        if ham_email_count c3 = 0 then (Inl ZeroDivisionError, c3)
        else
          unsmoothed_loop
            (c3\<lparr>p_word_given_ham := dict_set (p_word_given_ham c3) word
                  (real (dd_get (ham_word_count c3) 0 word) / real (ham_email_count c3))\<rparr>)
            rest)"

text \<open>
  The order in which Python iterates over the set \<^verbatim>\<open>self.words\<close> is not specified.
  The model iterates over the keys of the spam counts followed by the keys of the ham
  counts, duplicates removed.
  The state after a run without error does not depend on that order as far as lookups
  are concerned; the state after an error in the unsmoothed loop does (which word was
  touched first), and no theorem below speaks about that word.
\<close>

definition words_order :: "classifier \<Rightarrow> string list" where
  "words_order c = remdups (dict_keys (spam_word_count c) @ dict_keys (ham_word_count c))"

text \<open>
  \<^verbatim>\<open>train\<close> returns nothing; the result is the error raised or \<open>Inr ()\<close>, together
  with the state the instance is left in.
\<close>

definition train ::
  "classifier \<Rightarrow> string list list \<Rightarrow> string list \<Rightarrow> bool \<Rightarrow> (error + unit) \<times> classifier" where
  "train c emails labels laplace_smoothing =
     (let c1 = c\<lparr>total_emails := length emails\<rparr>;
          c2 = c1\<lparr>spam_email_count := count_label ''spam'' labels\<rparr>;
          c3 = c2\<lparr>ham_email_count := count_label ''ham'' labels\<rparr> in
      if total_emails c3 = 0 then (Inl ZeroDivisionError, c3)
      else
        let c4 = c3\<lparr>p_spam := real (spam_email_count c3) / real (total_emails c3)\<rparr>;
            c5 = c4\<lparr>p_ham := real (ham_email_count c4) / real (total_emails c4)\<rparr>;
            c6 = count_loop c5 (zip emails labels);
            c7 = c6\<lparr>words := set (words_order c6)\<rparr> in
        if laplace_smoothing then (Inr (), smoothed_loop c7 (words_order c6))
        else unsmoothed_loop c7 (words_order c6))"

subsection \<open>\<^verbatim>\<open>predict\<close>\<close>

text \<open>
  The values \<^verbatim>\<open>np.log\<close> produces and the sums of them: a finite number, negative
  infinity (\<^verbatim>\<open>np.log(0)\<close>, a warning and not an exception) or NaN (\<^verbatim>\<open>np.log\<close> of a
  negative number). Positive infinity does not arise from finite arguments.
\<close>

datatype npfloat = Fin real | NegInf | NaN

definition np_log :: "real \<Rightarrow> npfloat" where
  "np_log x = (if 0 < x then Fin (ln x) else if x = 0 then NegInf else NaN)"

fun np_add :: "npfloat \<Rightarrow> npfloat \<Rightarrow> npfloat" where
  "np_add (Fin a) (Fin b) = Fin (a + b)"
| "np_add NaN y = NaN"
| "np_add x NaN = NaN"
| "np_add NegInf y = NegInf"
| "np_add x NegInf = NegInf"

fun np_gt :: "npfloat \<Rightarrow> npfloat \<Rightarrow> bool" where
  "np_gt (Fin a) (Fin b) = (a > b)"
| "np_gt (Fin a) NegInf = True"
| "np_gt x y = False"

text \<open>The inner loop of the direct mode (lines 137 to 142): both scores at once.\<close>

fun direct_loop :: "classifier \<Rightarrow> real \<times> real \<Rightarrow> string list \<Rightarrow> real \<times> real" where
  "direct_loop c (s, h) [] = (s, h)"
| "direct_loop c (s, h) (word # email) =
     (if word \<in> words c then
        direct_loop c (s * dd_get (p_word_given_spam c) 0 word,
                       h * dd_get (p_word_given_ham c) 0 word) email
      else direct_loop c (s, h) email)"

text \<open>The inner loop of the log mode (lines 121 to 124).\<close>

fun log_loop :: "classifier \<Rightarrow> npfloat \<times> npfloat \<Rightarrow> string list \<Rightarrow> npfloat \<times> npfloat" where
  "log_loop c (s, h) [] = (s, h)"
| "log_loop c (s, h) (word # email) =
     (if word \<in> words c then
        log_loop c (np_add s (np_log (dd_get (p_word_given_spam c) 0 word)),
                    np_add h (np_log (dd_get (p_word_given_ham c) 0 word))) email
      else log_loop c (s, h) email)"

definition direct_label :: "classifier \<Rightarrow> string list \<Rightarrow> string" where
  "direct_label c email =
     (case direct_loop c (p_spam c, p_ham c) email of
        (s, h) \<Rightarrow> if s > h then ''spam'' else ''ham'')"

definition log_label :: "classifier \<Rightarrow> string list \<Rightarrow> string" where
  "log_label c email =
     (case log_loop c (np_log (p_spam c), np_log (p_ham c)) email of
        (s, h) \<Rightarrow> if np_gt s h then ''spam'' else ''ham'')"

text \<open>The outer loops: one label appended to \<^verbatim>\<open>y_pred\<close> per email, in order.\<close>

fun predict_log :: "classifier \<Rightarrow> string list list \<Rightarrow> string list" where
  "predict_log c [] = []"
| "predict_log c (email # emails) = log_label c email # predict_log c emails"

fun predict_direct :: "classifier \<Rightarrow> string list list \<Rightarrow> string list" where
  "predict_direct c [] = []"
| "predict_direct c (email # emails) = direct_label c email # predict_direct c emails"

text \<open>
  No statement of \<^verbatim>\<open>predict\<close> raises: multiplication, addition and comparison of
  floats do not, and \<^verbatim>\<open>np.log\<close> returns negative infinity or NaN. The result is
  therefore always \<open>Inr\<close> of the list of labels.
\<close>

definition predict :: "classifier \<Rightarrow> string list list \<Rightarrow> bool \<Rightarrow> error + string list" where
  "predict c emails prevent_underflow =
     (if prevent_underflow then Inr (predict_log c emails) else Inr (predict_direct c emails))"

subsection \<open>\<^verbatim>\<open>accuracy\<close>\<close>

text \<open>The loop over \<^verbatim>\<open>zip(y_true, y_pred)\<close> with its counter.\<close>

fun count_correct :: "nat \<Rightarrow> (string \<times> string) list \<Rightarrow> nat" where
  "count_correct n [] = n"
| "count_correct n ((yt, yp) # rest) =
     (if yt = yp then count_correct (n + 1) rest else count_correct n rest)"

definition accuracy :: "string list \<Rightarrow> string list \<Rightarrow> error + real" where
  "accuracy y_true y_pred =
     (let correct_prediction = count_correct 0 (zip y_true y_pred) in
      if length y_true = 0 then Inl ZeroDivisionError
      else Inr (real correct_prediction / real (length y_true)))"

subsection \<open>Notions of the specification\<close>

text \<open>
  The number of occurrences of a word in the documents of a batch that carry the label
  \<open>v\<close>: what the specification calls the word count of a class.
\<close>

definition occurrences :: "string \<Rightarrow> (string list \<times> string) list \<Rightarrow> string \<Rightarrow> nat" where
  "occurrences v zs w =
     sum_list (map (\<lambda>(email, label). if label = v then count_list email w else 0) zs)"

text \<open>The state of \<^verbatim>\<open>train\<close> on a non-empty batch after the counting loop (lines 69 to 84),
  when the vocabulary is built.\<close>

definition counted :: "classifier \<Rightarrow> string list list \<Rightarrow> string list \<Rightarrow> classifier" where
  "counted c emails labels =
     count_loop
       (c\<lparr>total_emails := length emails,
          spam_email_count := count_list labels ''spam'',
          ham_email_count := count_list labels ''ham'',
          p_spam := real (count_list labels ''spam'') / real (length emails),
          p_ham := real (count_list labels ''ham'') / real (length emails)\<rparr>)
       (zip emails labels)"



text \<open>The scores of the log mode for one document.\<close>

definition log_scores :: "classifier \<Rightarrow> string list \<Rightarrow> npfloat \<times> npfloat" where
  "log_scores c email = log_loop c (np_log (p_spam c), np_log (p_ham c)) email"

fun is_fin :: "npfloat \<Rightarrow> bool" where
  "is_fin (Fin a) = True"
| "is_fin NegInf = False"
| "is_fin NaN = False"

text \<open>The number of positions at which two sequences agree, as the specification words it.\<close>

definition agreements :: "string list \<Rightarrow> string list \<Rightarrow> nat" where
  "agreements y_true y_pred =
     card {i. i < min (length y_true) (length y_pred) \<and> y_true ! i = y_pred ! i}"

section \<open>Properties of \<^verbatim>\<open>accuracy\<close>\<close>

lemma count_correct_acc:
  "count_correct n ps = n + length (filter (\<lambda>(a, b). a = b) ps)"
  by (induction ps arbitrary: n) auto

lemma agree_positions_Cons:
  "{i. i < min (Suc m) (Suc k) \<and> (x # xs) ! i = (y # ys) ! i} =
     (if x = y then {0} else {}) \<union> Suc ` {i. i < min m k \<and> xs ! i = ys ! i}"
proof (rule set_eqI)
  fix i
  show "i \<in> {i. i < min (Suc m) (Suc k) \<and> (x # xs) ! i = (y # ys) ! i} \<longleftrightarrow>
        i \<in> (if x = y then {0} else {}) \<union> Suc ` {i. i < min m k \<and> xs ! i = ys ! i}"
    by (cases i) auto
qed

lemma length_filter_zip_agreements:
  "length (filter (\<lambda>(a, b). a = b) (zip xs ys)) = agreements xs ys"
proof (induction xs arbitrary: ys)
  case Nil
  then show ?case by (simp add: agreements_def)
next
  case (Cons x xs)
  show ?case
  proof (cases ys)
    case Nil
    then show ?thesis by (simp add: agreements_def)
  next
    case (Cons y ys')
    have fin: "finite {i. i < min (length xs) (length ys') \<and> xs ! i = ys' ! i}"
      by simp
    have "agreements (x # xs) (y # ys') =
            (if x = y then 1 else 0) + agreements xs ys'"
      unfolding agreements_def length_Cons agree_positions_Cons
      using fin by (auto simp: card_insert_if card_image)
    then show ?thesis
      using Cons Cons.IH [of ys'] by simp
  qed
qed

lemma count_correct_agreements:
  "count_correct 0 (zip xs ys) = agreements xs ys"
  by (simp add: count_correct_acc length_filter_zip_agreements)

lemma agreements_le: "agreements xs ys \<le> min (length xs) (length ys)"
proof -
  have "{i. i < min (length xs) (length ys) \<and> xs ! i = ys ! i}
          \<subseteq> {..<min (length xs) (length ys)}"
    by auto
  then have "agreements xs ys \<le> card {..<min (length xs) (length ys)}"
    unfolding agreements_def by (intro card_mono) auto
  then show ?thesis by simp
qed

lemma agreements_same: "agreements xs xs = length xs"
proof -
  have "{i. i < min (length xs) (length xs) \<and> xs ! i = xs ! i} = {..<length xs}"
    by auto
  then show ?thesis by (simp add: agreements_def)
qed

text \<open>
  C9. For equal-length non-empty truth and predictions, \<open>accuracy\<close> returns the number
  of agreeing positions divided by the length, a value in [0,1], which is 1 when the
  two sequences are identical; for empty sequences it raises \<open>ZeroDivisionError\<close>.
\<close>

theorem accuracy_equal_length:
  "(length y_true = length y_pred \<and> y_true \<noteq> [] \<longrightarrow>
      accuracy y_true y_pred = Inr (real (agreements y_true y_pred) / real (length y_true))
      \<and> 0 \<le> real (agreements y_true y_pred) / real (length y_true)
      \<and> real (agreements y_true y_pred) / real (length y_true) \<le> 1
      \<and> (y_true = y_pred \<longrightarrow> accuracy y_true y_pred = Inr 1))
   \<and> accuracy [] [] = Inl ZeroDivisionError"
proof -
  have le: "agreements y_true y_pred \<le> length y_true"
    using agreements_le [of y_true y_pred] by simp
  have "real (agreements y_true y_pred) / real (length y_true) \<le> 1" if "y_true \<noteq> []"
    using that le by (simp add: divide_le_eq_1)
  moreover have "real (agreements y_true y_true) / real (length y_true) = 1" if "y_true \<noteq> []"
    using that by (simp add: agreements_same)
  ultimately show ?thesis
    by (auto simp: accuracy_def count_correct_agreements)
qed

theorem accuracy_equal_length_witness:
  "length [''spam'', ''ham'', ''ham'', ''spam''] = length [''spam'', ''spam'', ''ham'', ''spam'']
   \<and> accuracy [''spam'', ''ham'', ''ham'', ''spam''] [''spam'', ''spam'', ''ham'', ''spam''] = Inr (3 / 4)
   \<and> real (agreements [''spam'', ''ham'', ''ham'', ''spam''] [''spam'', ''spam'', ''ham'', ''spam''])
       / real (length [''spam'', ''ham'', ''ham'', ''spam'']) = 3 / 4
   \<and> accuracy [''spam'', ''ham''] [''spam'', ''ham''] = Inr 1"
proof -
  have a: "accuracy [''spam'', ''ham'', ''ham'', ''spam''] [''spam'', ''spam'', ''ham'', ''spam''] = Inr (3 / 4)"
    by (simp add: accuracy_def)
  have b: "accuracy [''spam'', ''ham''] [''spam'', ''ham''] = Inr 1"
    by (simp add: accuracy_def)
  have c: "real (agreements [''spam'', ''ham'', ''ham'', ''spam''] [''spam'', ''spam'', ''ham'', ''spam''])
       / real (length [''spam'', ''ham'', ''ham'', ''spam'']) = 3 / 4"
    using accuracy_equal_length
      [of "[''spam'', ''ham'', ''ham'', ''spam'']" "[''spam'', ''spam'', ''ham'', ''spam'']"] a
    by simp
  from a b c show ?thesis by simp
qed

text \<open>
  C10. \<open>accuracy\<close> accepts inputs of unequal length: agreement is counted over the first
  \<open>min (length y_true) (length y_pred)\<close> positions and divided by \<open>length y_true\<close>; ground
  truth beyond the predictions lowers the result as mismatches do, predictions beyond the
  ground truth are ignored, and \<open>ZeroDivisionError\<close> is raised exactly when the ground
  truth is empty, whatever the predictions.
\<close>

lemma agreements_append_right:
  "length y_true \<le> length y_pred \<Longrightarrow> agreements y_true (y_pred @ extra) = agreements y_true y_pred"
proof -
  assume le: "length y_true \<le> length y_pred"
  have "{i. i < min (length y_true) (length (y_pred @ extra)) \<and> y_true ! i = (y_pred @ extra) ! i}
      = {i. i < min (length y_true) (length y_pred) \<and> y_true ! i = y_pred ! i}"
    using le by (auto simp: nth_append)
  then show ?thesis by (simp add: agreements_def)
qed

lemma agreements_append_left:
  "length y_pred \<le> length y_true \<Longrightarrow> agreements (y_true @ extra) y_pred = agreements y_true y_pred"
proof -
  assume le: "length y_pred \<le> length y_true"
  have "{i. i < min (length (y_true @ extra)) (length y_pred) \<and> (y_true @ extra) ! i = y_pred ! i}
      = {i. i < min (length y_true) (length y_pred) \<and> y_true ! i = y_pred ! i}"
    using le by (auto simp: nth_append)
  then show ?thesis by (simp add: agreements_def)
qed

theorem accuracy_unequal_length:
  "(accuracy y_true y_pred = Inl ZeroDivisionError \<longleftrightarrow> y_true = [])
   \<and> (y_true \<noteq> [] \<longrightarrow>
        accuracy y_true y_pred = Inr (real (agreements y_true y_pred) / real (length y_true)))
   \<and> (y_true \<noteq> [] \<and> length y_true \<le> length y_pred \<longrightarrow>
        accuracy y_true (y_pred @ extra) = accuracy y_true y_pred)
   \<and> (y_true \<noteq> [] \<and> length y_pred \<le> length y_true \<longrightarrow>
        accuracy (y_true @ extra) y_pred
          = Inr (real (agreements y_true y_pred) / real (length y_true + length extra)))"
  by (auto simp: accuracy_def count_correct_agreements agreements_append_right
      agreements_append_left)

theorem accuracy_unequal_length_witness:
  "accuracy [] [''spam''] = Inl ZeroDivisionError
   \<and> accuracy [''spam'', ''ham''] [''spam''] = Inr (1 / 2)
   \<and> accuracy ([''spam''] @ [''ham'']) [''spam'']
       = Inr (real (agreements [''spam''] [''spam'']) / real (length [''spam''] + length [''ham'']))
   \<and> accuracy [''spam''] ([''spam''] @ [''ham'', ''ham'']) = accuracy [''spam''] [''spam'']
   \<and> accuracy [''spam''] [''spam'', ''ham'', ''ham''] = Inr 1"
proof -
  have a: "accuracy [] [''spam''] = Inl ZeroDivisionError"
    using accuracy_unequal_length [of "[]" "[''spam'']" "[]"] by simp
  have b: "accuracy [''spam'', ''ham''] [''spam''] = Inr (1 / 2)"
    by (simp add: accuracy_def)
  have c: "accuracy ([''spam''] @ [''ham'']) [''spam'']
       = Inr (real (agreements [''spam''] [''spam'']) / real (length [''spam''] + length [''ham'']))"
    using accuracy_unequal_length [of "[''spam'']" "[''spam'']" "[''ham'']"] by simp
  have d: "accuracy [''spam''] ([''spam''] @ [''ham'', ''ham'']) = accuracy [''spam''] [''spam'']"
    using accuracy_unequal_length [of "[''spam'']" "[''spam'']" "[''ham'', ''ham'']"] by simp
  have e: "accuracy [''spam''] [''spam'', ''ham'', ''ham''] = Inr 1"
    by (simp add: accuracy_def)
  from a b c d e show ?thesis by simp
qed

section \<open>Dictionaries\<close>

lemma dd_get_dict_set:
  "dd_get (dict_set d k v) dflt k' = (if k' = k then v else dd_get d dflt k')"
  by (induction d) (auto simp: dd_get_def)

lemma dd_get_touch:
  "dd_get (dd_touch d dflt k) dflt k' = dd_get d dflt k'"
  by (auto simp: dd_get_def dd_touch_def split: option.splits if_splits)

lemma dd_get_incr:
  "dd_get (dd_incr d k) 0 k' = (if k' = k then dd_get d 0 k + 1 else dd_get d 0 k')"
  by (simp add: dd_incr_def dd_get_dict_set dd_get_touch)

lemma dict_keys_dict_set:
  "dict_keys (dict_set d k v) =
     (if k \<in> set (dict_keys d) then dict_keys d else dict_keys d @ [k])"
  by (induction d) (force simp: dict_keys_def)+

lemma keys_dict_set:
  "set (dict_keys (dict_set d k v)) = insert k (set (dict_keys d))"
  by (auto simp: dict_keys_dict_set)

lemma dict_keys_touch:
  "dict_keys (dd_touch d dflt k) =
     (if k \<in> set (dict_keys d) then dict_keys d else dict_keys d @ [k])"
proof (cases "map_of d k")
  case None
  then have "k \<notin> fst ` set d"
    by (simp add: map_of_eq_None_iff)
  with None show ?thesis
    by (simp add: dd_touch_def dict_keys_def)
next
  case (Some v)
  then have "k \<in> fst ` set d"
    by (metis map_of_eq_None_iff option.distinct(1))
  with Some show ?thesis
    by (simp add: dd_touch_def dict_keys_def)
qed

lemma keys_touch:
  "set (dict_keys (dd_touch d dflt k)) = insert k (set (dict_keys d))"
  by (auto simp: dict_keys_touch)

lemma keys_incr:
  "set (dict_keys (dd_incr d k)) = insert k (set (dict_keys d))"
  by (simp add: dd_incr_def keys_dict_set keys_touch)

lemma count_words_in_get:
  "dd_get (count_words_in d email) 0 w = dd_get d 0 w + count_list email w"
  by (induction email arbitrary: d) (auto simp: dd_get_incr)

lemma count_words_in_keys:
  "set (dict_keys (count_words_in d email)) = set (dict_keys d) \<union> set email"
  by (induction email arbitrary: d) (auto simp: keys_incr)

lemma count_label_eq: "count_label v labels = count_list labels v"
  by (induction labels) (auto simp: count_label_def)



section \<open>The loops of \<^verbatim>\<open>train\<close>\<close>

lemma count_loop_frame:
  "spam_email_count (count_loop c zs) = spam_email_count c
   \<and> ham_email_count (count_loop c zs) = ham_email_count c
   \<and> total_emails (count_loop c zs) = total_emails c
   \<and> p_spam (count_loop c zs) = p_spam c
   \<and> p_ham (count_loop c zs) = p_ham c
   \<and> p_word_given_spam (count_loop c zs) = p_word_given_spam c
   \<and> p_word_given_ham (count_loop c zs) = p_word_given_ham c
   \<and> words (count_loop c zs) = words c"
  by (induction c zs rule: count_loop.induct) simp_all

lemma count_loop_spam_get:
  "dd_get (spam_word_count (count_loop c zs)) 0 w
     = dd_get (spam_word_count c) 0 w + occurrences ''spam'' zs w"
  by (induction c zs rule: count_loop.induct)
     (simp_all add: occurrences_def count_words_in_get)

lemma count_loop_ham_get:
  "dd_get (ham_word_count (count_loop c zs)) 0 w
     = dd_get (ham_word_count c) 0 w + occurrences ''ham'' zs w"
  by (induction c zs rule: count_loop.induct)
     (simp_all add: occurrences_def count_words_in_get)

lemma smoothed_loop_frame:
  "spam_email_count (smoothed_loop c ws) = spam_email_count c
   \<and> ham_email_count (smoothed_loop c ws) = ham_email_count c
   \<and> total_emails (smoothed_loop c ws) = total_emails c
   \<and> p_spam (smoothed_loop c ws) = p_spam c
   \<and> p_ham (smoothed_loop c ws) = p_ham c
   \<and> words (smoothed_loop c ws) = words c"
  by (induction ws arbitrary: c) (simp_all add: Let_def)

lemma smoothed_loop_count_get:
  "dd_get (spam_word_count (smoothed_loop c ws)) 0 w = dd_get (spam_word_count c) 0 w
   \<and> dd_get (ham_word_count (smoothed_loop c ws)) 0 w = dd_get (ham_word_count c) 0 w"
  by (induction ws arbitrary: c) (simp_all add: Let_def dd_get_touch)

lemma smoothed_loop_spam:
  "dd_get (p_word_given_spam (smoothed_loop c ws)) 0 w =
     (if w \<in> set ws
      then real (dd_get (spam_word_count c) 0 w + 1) / real (spam_email_count c + 2)
      else dd_get (p_word_given_spam c) 0 w)"
  by (induction ws arbitrary: c) (simp_all add: Let_def dd_get_touch dd_get_dict_set)

lemma smoothed_loop_ham:
  "dd_get (p_word_given_ham (smoothed_loop c ws)) 0 w =
     (if w \<in> set ws
      then real (dd_get (ham_word_count c) 0 w + 1) / real (ham_email_count c + 2)
      else dd_get (p_word_given_ham c) 0 w)"
  by (induction ws arbitrary: c) (simp_all add: Let_def dd_get_touch dd_get_dict_set)

lemma unsmoothed_loop_ok:
  "spam_email_count c \<noteq> 0 \<Longrightarrow> ham_email_count c \<noteq> 0 \<Longrightarrow> fst (unsmoothed_loop c ws) = Inr ()"
  by (induction ws arbitrary: c) (simp_all add: Let_def)

lemma unsmoothed_loop_frame:
  "spam_email_count (snd (unsmoothed_loop c ws)) = spam_email_count c
   \<and> ham_email_count (snd (unsmoothed_loop c ws)) = ham_email_count c
   \<and> total_emails (snd (unsmoothed_loop c ws)) = total_emails c
   \<and> p_spam (snd (unsmoothed_loop c ws)) = p_spam c
   \<and> p_ham (snd (unsmoothed_loop c ws)) = p_ham c
   \<and> words (snd (unsmoothed_loop c ws)) = words c"
  by (induction ws arbitrary: c) (simp_all add: Let_def)




lemma unsmoothed_loop_error:
  "fst (unsmoothed_loop c ws) = Inl e \<Longrightarrow>
     p_word_given_ham (snd (unsmoothed_loop c ws)) = p_word_given_ham c
     \<and> ws \<noteq> [] \<and> (spam_email_count c = 0 \<or> ham_email_count c = 0)"
proof (cases ws)
  case Nil
  assume "fst (unsmoothed_loop c ws) = Inl e"
  with Nil show ?thesis by simp
next
  case (Cons w rest)
  assume err: "fst (unsmoothed_loop c ws) = Inl e"
  show ?thesis
  proof (cases "spam_email_count c = 0 \<or> ham_email_count c = 0")
    case True
    with Cons show ?thesis by (auto simp: Let_def)
  next
    case False
    then have "fst (unsmoothed_loop c ws) = Inr ()"
      by (simp add: unsmoothed_loop_ok)
    with err show ?thesis by simp
  qed
qed



lemma count_list_two_labels:
  "set labels \<subseteq> {a, b} \<Longrightarrow> a \<noteq> b \<Longrightarrow> count_list labels a + count_list labels b = length labels"
  by (induction labels) auto

lemma train_empty:
  "train c [] labels ls =
     (Inl ZeroDivisionError,
      c\<lparr>total_emails := 0, spam_email_count := count_list labels ''spam'',
        ham_email_count := count_list labels ''ham''\<rparr>)"
  by (simp add: train_def count_label_eq)

lemma train_nonempty:
  "emails \<noteq> [] \<Longrightarrow>
   train c emails labels ls =
     (if ls then (Inr (), smoothed_loop ((counted c emails labels)
                    \<lparr>words := set (words_order (counted c emails labels))\<rparr>)
                    (words_order (counted c emails labels)))
      else unsmoothed_loop ((counted c emails labels)
                    \<lparr>words := set (words_order (counted c emails labels))\<rparr>)
                    (words_order (counted c emails labels)))"
  by (simp add: train_def counted_def count_label_eq Let_def)

lemma counted_frame:
  "spam_email_count (counted c emails labels) = count_list labels ''spam''
   \<and> ham_email_count (counted c emails labels) = count_list labels ''ham''
   \<and> total_emails (counted c emails labels) = length emails
   \<and> p_spam (counted c emails labels) = real (count_list labels ''spam'') / real (length emails)
   \<and> p_ham (counted c emails labels) = real (count_list labels ''ham'') / real (length emails)
   \<and> p_word_given_spam (counted c emails labels) = p_word_given_spam c
   \<and> p_word_given_ham (counted c emails labels) = p_word_given_ham c"
  by (simp add: counted_def count_loop_frame)

lemma counted_get:
  "dd_get (spam_word_count (counted c emails labels)) 0 w
     = dd_get (spam_word_count c) 0 w + occurrences ''spam'' (zip emails labels) w
   \<and> dd_get (ham_word_count (counted c emails labels)) 0 w
     = dd_get (ham_word_count c) 0 w + occurrences ''ham'' (zip emails labels) w"
  by (simp add: counted_def count_loop_spam_get count_loop_ham_get)

lemma train_scalars:
  assumes "emails \<noteq> []"
  shows "spam_email_count (snd (train c emails labels ls)) = count_list labels ''spam''
   \<and> ham_email_count (snd (train c emails labels ls)) = count_list labels ''ham''
   \<and> total_emails (snd (train c emails labels ls)) = length emails
   \<and> p_spam (snd (train c emails labels ls)) = real (count_list labels ''spam'') / real (length emails)
   \<and> p_ham (snd (train c emails labels ls)) = real (count_list labels ''ham'') / real (length emails)
   \<and> words (snd (train c emails labels ls)) = set (words_order (counted c emails labels))"
  using assms
  by (cases ls) (simp_all add: train_nonempty smoothed_loop_frame unsmoothed_loop_frame counted_frame)

section \<open>Properties of \<^verbatim>\<open>train\<close>\<close>

text \<open>
  C5. After \<open>train\<close> on N > 0 documents with N labels, each \<open>''spam''\<close> or \<open>''ham''\<close>:
  \<open>spam_email_count\<close> is the number of spam labels, \<open>ham_email_count\<close> the number of ham
  labels, their sum is \<open>total_emails\<close>, which is N, the priors are the class counts
  divided by N, and the priors add up to 1. This holds for the state the call leaves
  behind whether or not the later unsmoothed loop raises.
\<close>

theorem train_counts_and_priors:
  assumes "length emails = length labels" and "0 < length emails"
    and "set labels \<subseteq> {''spam'', ''ham''}"
  shows "spam_email_count (snd (train c emails labels ls)) = count_list labels ''spam''
   \<and> ham_email_count (snd (train c emails labels ls)) = count_list labels ''ham''
   \<and> spam_email_count (snd (train c emails labels ls)) + ham_email_count (snd (train c emails labels ls))
       = total_emails (snd (train c emails labels ls))
   \<and> total_emails (snd (train c emails labels ls)) = length emails
   \<and> p_spam (snd (train c emails labels ls))
       = real (spam_email_count (snd (train c emails labels ls))) / real (length emails)
   \<and> p_ham (snd (train c emails labels ls))
       = real (ham_email_count (snd (train c emails labels ls))) / real (length emails)
   \<and> p_spam (snd (train c emails labels ls)) + p_ham (snd (train c emails labels ls)) = 1"
proof -
  from assms(2) have ne: "emails \<noteq> []" by auto
  have sum: "count_list labels ''spam'' + count_list labels ''ham'' = length emails"
    using count_list_two_labels [OF assms(3)] assms(1) by simp
  have "real (count_list labels ''spam'') / real (length emails)
        + real (count_list labels ''ham'') / real (length emails)
      = real (count_list labels ''spam'' + count_list labels ''ham'') / real (length emails)"
    by (simp add: add_divide_distrib)
  also have "\<dots> = 1"
    using sum assms(2) by simp
  finally have one: "real (count_list labels ''spam'') / real (length emails)
        + real (count_list labels ''ham'') / real (length emails) = 1" .
  show ?thesis
    using train_scalars [OF ne, of c labels ls] sum one by simp
qed

theorem train_counts_and_priors_witness:
  "length [[''buy'', ''now''], [''hello'', ''friend''], [''win'']] = length [''spam'', ''ham'', ''spam'']
   \<and> 0 < length [[''buy'', ''now''], [''hello'', ''friend''], [''win'']]
   \<and> set [''spam'', ''ham'', ''spam''] \<subseteq> {''spam'', ''ham''}
   \<and> spam_email_count (snd (train init [[''buy'', ''now''], [''hello'', ''friend''], [''win'']]
         [''spam'', ''ham'', ''spam''] False)) = 2
   \<and> ham_email_count (snd (train init [[''buy'', ''now''], [''hello'', ''friend''], [''win'']]
         [''spam'', ''ham'', ''spam''] False)) = 1
   \<and> total_emails (snd (train init [[''buy'', ''now''], [''hello'', ''friend''], [''win'']]
         [''spam'', ''ham'', ''spam''] False)) = 3
   \<and> p_spam (snd (train init [[''buy'', ''now''], [''hello'', ''friend''], [''win'']]
         [''spam'', ''ham'', ''spam''] False)) = 2 / 3
   \<and> p_ham (snd (train init [[''buy'', ''now''], [''hello'', ''friend''], [''win'']]
         [''spam'', ''ham'', ''spam''] False)) = 1 / 3"
proof -
  have h1: "length [[''buy'', ''now''], [''hello'', ''friend''], [''win'']]
              = length [''spam'', ''ham'', ''spam'']"
    by simp
  have h2: "0 < length [[''buy'', ''now''], [''hello'', ''friend''], [''win'']]"
    by simp
  have h3: "set [''spam'', ''ham'', ''spam''] \<subseteq> {''spam'', ''ham''}"
    by simp
  show ?thesis
    using h1 h2 h3 train_counts_and_priors [OF h1 h2 h3, of init False]
    by simp
qed

lemma count_list_distinct_le: "distinct xs \<Longrightarrow> count_list xs w \<le> 1"
  by (induction xs) auto

lemma occurrences_le:
  "\<forall>e \<in> set emails. distinct e \<Longrightarrow>
     occurrences v (zip emails labels) w \<le> count_list labels v"
proof (induction emails arbitrary: labels)
  case Nil
  then show ?case by (simp add: occurrences_def)
next
  case (Cons e emails)
  show ?case
  proof (cases labels)
    case Nil
    then show ?thesis by (simp add: occurrences_def)
  next
    case (Cons l labels')
    have "occurrences v (zip emails labels') w \<le> count_list labels' v"
      using Cons.IH Cons.prems by simp
    moreover have "count_list e w \<le> 1"
      using Cons.prems count_list_distinct_le [of e w] by simp
    ultimately show ?thesis
      using Cons by (auto simp: occurrences_def)
  qed
qed


lemma init_get:
  "dd_get (spam_word_count init) 0 w = 0 \<and> dd_get (ham_word_count init) 0 w = 0"
  by (simp add: init_def dd_get_def)

lemma train_smoothed_state:
  assumes "emails \<noteq> []"
  shows "fst (train c emails labels True) = Inr ()"
    and "w \<in> words (snd (train c emails labels True)) \<Longrightarrow>
         dd_get (p_word_given_spam (snd (train c emails labels True))) 0 w
           = real (dd_get (spam_word_count (snd (train c emails labels True))) 0 w + 1)
             / real (spam_email_count (snd (train c emails labels True)) + 2)"
    and "w \<in> words (snd (train c emails labels True)) \<Longrightarrow>
         dd_get (p_word_given_ham (snd (train c emails labels True))) 0 w
           = real (dd_get (ham_word_count (snd (train c emails labels True))) 0 w + 1)
             / real (ham_email_count (snd (train c emails labels True)) + 2)"
    and "dd_get (spam_word_count (snd (train c emails labels True))) 0 w
           = dd_get (spam_word_count c) 0 w + occurrences ''spam'' (zip emails labels) w"
    and "dd_get (ham_word_count (snd (train c emails labels True))) 0 w
           = dd_get (ham_word_count c) 0 w + occurrences ''ham'' (zip emails labels) w"
  using assms
  by (simp_all add: train_nonempty smoothed_loop_frame smoothed_loop_spam smoothed_loop_ham
      smoothed_loop_count_get counted_get)



text \<open>
  C6 (as amended). After a successful \<open>train\<close> with smoothing (any non-empty batch, from
  any earlier state), for every word of the vocabulary the conditional probabilities are
  \<open>(spam_word_count[word] + 1) / (spam_email_count + 2)\<close> and
  \<open>(ham_word_count[word] + 1) / (ham_email_count + 2)\<close>, and both are strictly positive.
  They are strictly below 1 when the classifier was freshly constructed and no document
  repeats a token (each document is a set of words, as the docstring of \<open>train\<close> expects).
\<close>

theorem train_smoothed_probabilities:
  assumes "emails \<noteq> []" and "w \<in> words (snd (train c emails labels True))"
  shows "fst (train c emails labels True) = Inr ()
   \<and> dd_get (p_word_given_spam (snd (train c emails labels True))) 0 w
       = real (dd_get (spam_word_count (snd (train c emails labels True))) 0 w + 1)
         / real (spam_email_count (snd (train c emails labels True)) + 2)
   \<and> dd_get (p_word_given_ham (snd (train c emails labels True))) 0 w
       = real (dd_get (ham_word_count (snd (train c emails labels True))) 0 w + 1)
         / real (ham_email_count (snd (train c emails labels True)) + 2)
   \<and> 0 < dd_get (p_word_given_spam (snd (train c emails labels True))) 0 w
   \<and> 0 < dd_get (p_word_given_ham (snd (train c emails labels True))) 0 w
   \<and> (c = init \<and> (\<forall>e \<in> set emails. distinct e) \<longrightarrow>
        dd_get (p_word_given_spam (snd (train c emails labels True))) 0 w < 1
        \<and> dd_get (p_word_given_ham (snd (train c emails labels True))) 0 w < 1)"
proof -
  let ?c' = "snd (train c emails labels True)"
  note st = train_smoothed_state [OF assms(1), where c = c and labels = labels]
  have ps: "dd_get (p_word_given_spam ?c') 0 w
       = real (dd_get (spam_word_count ?c') 0 w + 1) / real (spam_email_count ?c' + 2)"
    using st(2) assms(2) by simp
  have ph: "dd_get (p_word_given_ham ?c') 0 w
       = real (dd_get (ham_word_count ?c') 0 w + 1) / real (ham_email_count ?c' + 2)"
    using st(3) assms(2) by simp
  have pos: "0 < dd_get (p_word_given_spam ?c') 0 w" "0 < dd_get (p_word_given_ham ?c') 0 w"
    unfolding ps ph by simp_all
  have lt: "dd_get (p_word_given_spam ?c') 0 w < 1 \<and> dd_get (p_word_given_ham ?c') 0 w < 1"
    if fresh: "c = init" and dis: "\<forall>e \<in> set emails. distinct e"
  proof -
    have "dd_get (spam_word_count ?c') 0 w = occurrences ''spam'' (zip emails labels) w"
      using st(4) [where w = w] fresh init_get by simp
    then have s: "dd_get (spam_word_count ?c') 0 w \<le> spam_email_count ?c'"
      using occurrences_le [OF dis, where v = "''spam''" and labels = labels and w = w] train_scalars [OF assms(1), where c = c and labels = labels and ls = True]
      by simp
    have "dd_get (ham_word_count ?c') 0 w = occurrences ''ham'' (zip emails labels) w"
      using st(5) [where w = w] fresh init_get by simp
    then have h: "dd_get (ham_word_count ?c') 0 w \<le> ham_email_count ?c'"
      using occurrences_le [OF dis, where v = "''ham''" and labels = labels and w = w] train_scalars [OF assms(1), where c = c and labels = labels and ls = True]
      by simp
    show ?thesis
      unfolding ps ph using s h by simp
  qed
  show ?thesis
    using st(1) ps ph pos lt by blast
qed

theorem train_smoothed_probabilities_witness:
  "[[''buy'', ''now''], [''hello'', ''friend'']] \<noteq> []
   \<and> ''buy'' \<in> words (snd (train init [[''buy'', ''now''], [''hello'', ''friend'']] [''spam'', ''ham''] True))
   \<and> distinct [''buy'', ''now''] \<and> distinct [''hello'', ''friend'']
   \<and> dd_get (p_word_given_spam (snd (train init [[''buy'', ''now''], [''hello'', ''friend'']]
        [''spam'', ''ham''] True))) 0 ''buy'' = 2 / 3
   \<and> dd_get (p_word_given_ham (snd (train init [[''buy'', ''now''], [''hello'', ''friend'']]
        [''spam'', ''ham''] True))) 0 ''buy'' = 1 / 3
   \<and> 0 < dd_get (p_word_given_ham (snd (train init [[''buy'', ''now''], [''hello'', ''friend'']]
        [''spam'', ''ham''] True))) 0 ''buy''
   \<and> (dd_get (p_word_given_spam (snd (train init [[''buy'', ''now''], [''hello'', ''friend'']]
        [''spam'', ''ham''] True))) 0 ''buy'' < 1
      \<and> dd_get (p_word_given_ham (snd (train init [[''buy'', ''now''], [''hello'', ''friend'']]
        [''spam'', ''ham''] True))) 0 ''buy'' < 1)"
proof -
  have h1: "[[''buy'', ''now''], [''hello'', ''friend'']] \<noteq> []"
    by simp
  have h2: "''buy'' \<in> words (snd (train init [[''buy'', ''now''], [''hello'', ''friend'']]
              [''spam'', ''ham''] True))"
    by code_simp
  have h3: "\<forall>e \<in> set [[''buy'', ''now''], [''hello'', ''friend'']]. distinct e"
    by simp
  have v1: "dd_get (p_word_given_spam (snd (train init [[''buy'', ''now''], [''hello'', ''friend'']]
        [''spam'', ''ham''] True))) 0 ''buy'' = 2 / 3"
    by code_simp
  have v2: "dd_get (p_word_given_ham (snd (train init [[''buy'', ''now''], [''hello'', ''friend'']]
        [''spam'', ''ham''] True))) 0 ''buy'' = 1 / 3"
    by code_simp
  note t = train_smoothed_probabilities [OF h1 h2]
  have pos: "0 < dd_get (p_word_given_ham (snd (train init [[''buy'', ''now''], [''hello'', ''friend'']]
        [''spam'', ''ham''] True))) 0 ''buy''"
    by (rule t [THEN conjunct2, THEN conjunct2, THEN conjunct2, THEN conjunct2, THEN conjunct1])
  have lt: "dd_get (p_word_given_spam (snd (train init [[''buy'', ''now''], [''hello'', ''friend'']]
        [''spam'', ''ham''] True))) 0 ''buy'' < 1
      \<and> dd_get (p_word_given_ham (snd (train init [[''buy'', ''now''], [''hello'', ''friend'']]
        [''spam'', ''ham''] True))) 0 ''buy'' < 1"
    by (rule mp [OF t [THEN conjunct2, THEN conjunct2, THEN conjunct2, THEN conjunct2,
          THEN conjunct2] conjI [OF refl h3]])
  show ?thesis
    using h3 by (intro conjI h1 h2 v1 v2 pos lt [THEN conjunct1] lt [THEN conjunct2]) simp_all
qed

text \<open>
  The upper bound of C6 as the claim states it fails when a document repeats a token: one
  spam document with three occurrences of a word gives (3 + 1) / (1 + 2).
\<close>

theorem smoothed_bound_counterexample:
  "fst (train init [[''win'', ''win'', ''win'']] [''spam''] True) = Inr ()
   \<and> set [''spam''] \<subseteq> {''spam'', ''ham''}
   \<and> ''win'' \<in> words (snd (train init [[''win'', ''win'', ''win'']] [''spam''] True))
   \<and> dd_get (p_word_given_spam (snd (train init [[''win'', ''win'', ''win'']] [''spam''] True))) 0 ''win''
        = 4 / 3
   \<and> \<not> dd_get (p_word_given_spam (snd (train init [[''win'', ''win'', ''win'']] [''spam''] True))) 0 ''win''
        < 1"
  by code_simp



text \<open>
  C4 (as amended). \<open>train\<close> assigns the fields as it goes, so a call that raises leaves
  the assignments made so far. The only error is \<open>ZeroDivisionError\<close>. On an empty email
  sequence the state after the call is the state before it with \<open>total_emails\<close>,
  \<open>spam_email_count\<close> and \<open>ham_email_count\<close> overwritten by 0 and the label counts. On a
  non-empty sequence it raises only without smoothing and with a class count of 0, and
  then counts and priors hold the values of the failed call. \<open>p_word_given_ham\<close> is never
  changed by a call that raises.
\<close>

theorem train_error_state:
  assumes "fst (train c emails labels ls) = Inl e"
  shows "e = ZeroDivisionError
   \<and> p_word_given_ham (snd (train c emails labels ls)) = p_word_given_ham c
   \<and> (emails = [] \<longrightarrow>
        snd (train c emails labels ls)
          = c\<lparr>total_emails := 0, spam_email_count := count_list labels ''spam'',
              ham_email_count := count_list labels ''ham''\<rparr>)
   \<and> (emails \<noteq> [] \<longrightarrow>
        \<not> ls \<and> (count_list labels ''spam'' = 0 \<or> count_list labels ''ham'' = 0)
        \<and> total_emails (snd (train c emails labels ls)) = length emails
        \<and> spam_email_count (snd (train c emails labels ls)) = count_list labels ''spam''
        \<and> ham_email_count (snd (train c emails labels ls)) = count_list labels ''ham''
        \<and> p_spam (snd (train c emails labels ls))
            = real (count_list labels ''spam'') / real (length emails)
        \<and> p_ham (snd (train c emails labels ls))
            = real (count_list labels ''ham'') / real (length emails))"
proof (cases "emails = []")
  case True
  then show ?thesis
    by (cases e) (simp add: train_empty)
next
  case False
  have nls: "\<not> ls"
    using assms False by (cases ls) (simp_all add: train_nonempty)
  let ?c7 = "(counted c emails labels)\<lparr>words := set (words_order (counted c emails labels))\<rparr>"
  have tr: "train c emails labels ls = unsmoothed_loop ?c7 (words_order (counted c emails labels))"
    using False nls by (simp add: train_nonempty)
  from assms have err: "fst (unsmoothed_loop ?c7 (words_order (counted c emails labels))) = Inl e"
    by (simp add: tr)
  from unsmoothed_loop_error [OF err]
  have "p_word_given_ham (snd (train c emails labels ls)) = p_word_given_ham c"
    and "count_list labels ''spam'' = 0 \<or> count_list labels ''ham'' = 0"
    by (simp_all add: tr counted_frame)
  then show ?thesis
    using False nls train_scalars [OF False, where c = c and labels = labels and ls = ls]
    by (cases e) simp
qed


theorem train_error_state_witness:
  "fst (train (snd (train init [[''buy'']] [''spam''] True)) [] [] True) = Inl ZeroDivisionError
   \<and> snd (train (snd (train init [[''buy'']] [''spam''] True)) [] [] True)
       = (snd (train init [[''buy'']] [''spam''] True))
           \<lparr>total_emails := 0, spam_email_count := count_list [] ''spam'',
             ham_email_count := count_list [] ''ham''\<rparr>
   \<and> p_word_given_ham (snd (train (snd (train init [[''buy'']] [''spam''] True)) [] [] True))
       = p_word_given_ham (snd (train init [[''buy'']] [''spam''] True))"
proof -
  have h: "fst (train (snd (train init [[''buy'']] [''spam''] True)) [] [] True) = Inl ZeroDivisionError"
    by (simp add: train_empty)
  note t = train_error_state [OF h]
  have a: "p_word_given_ham (snd (train (snd (train init [[''buy'']] [''spam''] True)) [] [] True))
       = p_word_given_ham (snd (train init [[''buy'']] [''spam''] True))"
    by (rule t [THEN conjunct2, THEN conjunct1])
  have b: "snd (train (snd (train init [[''buy'']] [''spam''] True)) [] [] True)
       = (snd (train init [[''buy'']] [''spam''] True))
           \<lparr>total_emails := 0, spam_email_count := count_list [] ''spam'',
             ham_email_count := count_list [] ''ham''\<rparr>"
    by (rule mp [OF t [THEN conjunct2, THEN conjunct2, THEN conjunct1] refl])
  show ?thesis
    by (intro conjI h a b)
qed

text \<open>
  C4 as the claim states it fails: a first \<open>train\<close> without smoothing on one spam
  document raises in the loop over the vocabulary (no ham document) and leaves a state
  different from the one before the call; \<open>train\<close> on empty sequences raises with
  \<open>total_emails\<close> of a trained classifier already overwritten.
\<close>

theorem train_error_state_counterexample:
  "fst (train init [[''buy'']] [''spam''] False) = Inl ZeroDivisionError
   \<and> snd (train init [[''buy'']] [''spam''] False) \<noteq> init
   \<and> total_emails init = 0
   \<and> total_emails (snd (train init [[''buy'']] [''spam''] False)) = 1
   \<and> fst (train (snd (train init [[''buy'']] [''spam''] True)) [] [] True) = Inl ZeroDivisionError
   \<and> total_emails (snd (train init [[''buy'']] [''spam''] True)) = 1
   \<and> total_emails (snd (train (snd (train init [[''buy'']] [''spam''] True)) [] [] True)) = 0"
  by code_simp

text \<open>
  C1. \<open>train\<close> would leave every field as a freshly constructed classifier trained on
  the same batch holds it. The code does not: the two word-count dictionaries are
  created in \<^verbatim>\<open>__init__\<close> only and \<open>train\<close> increments them, so a second call on the
  same batch doubles every word count while the document counts are reassigned; the
  conditional "probability" of a word becomes 2.
\<close>

theorem train_twice_accumulates:
  "fst (train init [[''buy'', ''now''], [''hello'', ''friend'']] [''spam'', ''ham''] False) = Inr ()
   \<and> fst (train (snd (train init [[''buy'', ''now''], [''hello'', ''friend'']] [''spam'', ''ham''] False))
          [[''buy'', ''now''], [''hello'', ''friend'']] [''spam'', ''ham''] False) = Inr ()
   \<and> dd_get (spam_word_count (snd (train init [[''buy'', ''now''], [''hello'', ''friend'']]
          [''spam'', ''ham''] False))) 0 ''buy'' = 1
   \<and> dd_get (spam_word_count (snd (train
          (snd (train init [[''buy'', ''now''], [''hello'', ''friend'']] [''spam'', ''ham''] False))
          [[''buy'', ''now''], [''hello'', ''friend'']] [''spam'', ''ham''] False))) 0 ''buy'' = 2
   \<and> dd_get (p_word_given_spam (snd (train init [[''buy'', ''now''], [''hello'', ''friend'']]
          [''spam'', ''ham''] False))) 0 ''buy'' = 1
   \<and> dd_get (p_word_given_spam (snd (train
          (snd (train init [[''buy'', ''now''], [''hello'', ''friend'']] [''spam'', ''ham''] False))
          [[''buy'', ''now''], [''hello'', ''friend'']] [''spam'', ''ham''] False))) 0 ''buy'' = 2"
  by code_simp


section \<open>Properties of \<^verbatim>\<open>predict\<close>\<close>



lemma predict_log_map: "predict_log c emails = map (log_label c) emails"
  by (induction emails) simp_all






lemma np_add_fin: "is_fin (np_add x y) \<longleftrightarrow> is_fin x \<and> is_fin y"
  by (cases x; cases y) simp_all

lemma np_log_fin: "is_fin (np_log x) \<longleftrightarrow> 0 < x"
  by (simp add: np_log_def)

lemma np_gt_fin: "np_gt x y \<Longrightarrow> is_fin x"
  by (cases x; cases y) simp_all

lemma np_add_nan: "np_add x y = NaN \<longleftrightarrow> x = NaN \<or> y = NaN"
  by (cases x; cases y) simp_all

lemma np_log_nan: "np_log x = NaN \<longleftrightarrow> x < 0"
  by (simp add: np_log_def)

lemma log_loop_fst_fin:
  "is_fin (fst (log_loop c (s, h) email)) \<longleftrightarrow>
     is_fin s \<and> (\<forall>w \<in> set email. w \<in> words c \<longrightarrow> 0 < dd_get (p_word_given_spam c) 0 w)"
  by (induction email arbitrary: s h) (auto simp: np_add_fin np_log_fin)

lemma log_loop_snd_fin:
  "is_fin (snd (log_loop c (s, h) email)) \<longleftrightarrow>
     is_fin h \<and> (\<forall>w \<in> set email. w \<in> words c \<longrightarrow> 0 < dd_get (p_word_given_ham c) 0 w)"
  by (induction email arbitrary: s h) (auto simp: np_add_fin np_log_fin)

lemma log_loop_snd_nan:
  "snd (log_loop c (s, h) email) = NaN \<longleftrightarrow>
     h = NaN \<or> (\<exists>w \<in> set email. w \<in> words c \<and> dd_get (p_word_given_ham c) 0 w < 0)"
  by (induction email arbitrary: s h) (auto simp: np_add_nan np_log_nan)








lemma log_mode_spam_zero:
  assumes "w \<in> set email" and "w \<in> words c" and "dd_get (p_word_given_spam c) 0 w = 0"
  shows "\<not> is_fin (fst (log_scores c email)) \<and> log_label c email = ''ham''"
proof -
  have nf: "\<not> is_fin (fst (log_scores c email))"
    unfolding log_scores_def log_loop_fst_fin using assms by force
  obtain s h where sh: "log_scores c email = (s, h)"
    by (cases "log_scores c email")
  with nf have "\<not> np_gt s h"
    using np_gt_fin [of s h] by auto
  then have "log_label c email = ''ham''"
    using sh by (simp add: log_label_def log_scores_def)
  with nf show ?thesis by simp
qed

lemma log_mode_ham_zero:
  assumes "0 < p_spam c" and "0 \<le> p_ham c"
    and "\<forall>v \<in> set email. v \<in> words c \<longrightarrow>
            0 < dd_get (p_word_given_spam c) 0 v \<and> 0 \<le> dd_get (p_word_given_ham c) 0 v"
    and "w \<in> set email" and "w \<in> words c" and "dd_get (p_word_given_ham c) 0 w = 0"
  shows "is_fin (fst (log_scores c email)) \<and> snd (log_scores c email) = NegInf
         \<and> log_label c email = ''spam''"
proof -
  obtain s h where sh: "log_scores c email = (s, h)"
    by (cases "log_scores c email")
  have fs: "is_fin (fst (log_scores c email))"
    unfolding log_scores_def log_loop_fst_fin using assms(1,3) by (simp add: np_log_fin)
  have nfh: "\<not> is_fin (snd (log_scores c email))"
    unfolding log_scores_def log_loop_snd_fin using assms(4,5,6) by force
  have nn: "snd (log_scores c email) \<noteq> NaN"
    unfolding log_scores_def log_loop_snd_nan using assms(2,3) by (force simp: np_log_nan)
  from nfh nn have hn: "snd (log_scores c email) = NegInf"
    by (cases "snd (log_scores c email)") simp_all
  from fs hn sh have "np_gt s h"
    by (cases s) simp_all
  then have "log_label c email = ''spam''"
    using sh by (simp add: log_label_def log_scores_def)
  with fs hn show ?thesis by simp
qed

text \<open>
  C3 (as amended). \<open>predict\<close> with \<open>prevent_underflow\<close> never fails: it returns one label
  per document. A conditional probability of 0 is carried silently as negative infinity.
  A document with an in-vocabulary word of spam probability 0 has a spam score that is
  not finite and gets the label \<open>''ham''\<close>. A document with an in-vocabulary word of ham
  probability 0, whose other probabilities are non-negative, with a positive spam prior
  and positive spam probabilities, has ham score negative infinity and gets the label
  \<open>''spam''\<close>.
\<close>

theorem predict_log_mode_zero_probability:
  "predict c emails True = Inr (map (log_label c) emails)
   \<and> (w \<in> set email \<and> w \<in> words c \<and> dd_get (p_word_given_spam c) 0 w = 0 \<longrightarrow>
        \<not> is_fin (fst (log_scores c email)) \<and> log_label c email = ''ham'')
   \<and> (0 < p_spam c \<and> 0 \<le> p_ham c
      \<and> (\<forall>v \<in> set email. v \<in> words c \<longrightarrow>
            0 < dd_get (p_word_given_spam c) 0 v \<and> 0 \<le> dd_get (p_word_given_ham c) 0 v)
      \<and> w \<in> set email \<and> w \<in> words c \<and> dd_get (p_word_given_ham c) 0 w = 0 \<longrightarrow>
        is_fin (fst (log_scores c email)) \<and> snd (log_scores c email) = NegInf
        \<and> log_label c email = ''spam'')"
proof (intro conjI impI)
  show "predict c emails True = Inr (map (log_label c) emails)"
    by (simp add: predict_def predict_log_map)
next
  assume "w \<in> set email \<and> w \<in> words c \<and> dd_get (p_word_given_spam c) 0 w = 0"
  then have r: "\<not> is_fin (fst (log_scores c email)) \<and> log_label c email = ''ham''"
    using log_mode_spam_zero [of w email c] by simp
  from r show "\<not> is_fin (fst (log_scores c email))" by simp
  from r show "log_label c email = ''ham''" by simp
next
  assume a: "0 < p_spam c \<and> 0 \<le> p_ham c
      \<and> (\<forall>v \<in> set email. v \<in> words c \<longrightarrow>
            0 < dd_get (p_word_given_spam c) 0 v \<and> 0 \<le> dd_get (p_word_given_ham c) 0 v)
      \<and> w \<in> set email \<and> w \<in> words c \<and> dd_get (p_word_given_ham c) 0 w = 0"
  then have r: "is_fin (fst (log_scores c email)) \<and> snd (log_scores c email) = NegInf
         \<and> log_label c email = ''spam''"
    by (intro log_mode_ham_zero [where w = w]) simp_all
  from r show "is_fin (fst (log_scores c email))" by simp
  from r show "snd (log_scores c email) = NegInf" by simp
  from r show "log_label c email = ''spam''" by simp
qed

theorem predict_log_mode_zero_probability_witness:
  "''buy'' \<in> set [''buy'', ''now''] \<and> ''buy'' \<in> words (snd (train init [[''buy'', ''now''], [''hello'', ''friend'']] [''spam'', ''ham''] False))
   \<and> dd_get (p_word_given_ham (snd (train init [[''buy'', ''now''], [''hello'', ''friend'']] [''spam'', ''ham''] False))) 0 ''buy'' = 0
   \<and> snd (log_scores (snd (train init [[''buy'', ''now''], [''hello'', ''friend'']] [''spam'', ''ham''] False)) [''buy'', ''now'']) = NegInf
   \<and> log_label (snd (train init [[''buy'', ''now''], [''hello'', ''friend'']] [''spam'', ''ham''] False)) [''buy'', ''now''] = ''spam''
   \<and> ''hello'' \<in> set [''hello''] \<and> ''hello'' \<in> words (snd (train init [[''buy'', ''now''], [''hello'', ''friend'']] [''spam'', ''ham''] False))
   \<and> dd_get (p_word_given_spam (snd (train init [[''buy'', ''now''], [''hello'', ''friend'']] [''spam'', ''ham''] False))) 0 ''hello'' = 0
   \<and> log_label (snd (train init [[''buy'', ''now''], [''hello'', ''friend'']] [''spam'', ''ham''] False)) [''hello''] = ''ham''"
proof -
  have a1: "''buy'' \<in> set [''buy'', ''now'']" by simp
  have a2: "''buy'' \<in> words (snd (train init [[''buy'', ''now''], [''hello'', ''friend'']] [''spam'', ''ham''] False))" by code_simp
  have a3: "dd_get (p_word_given_ham (snd (train init [[''buy'', ''now''], [''hello'', ''friend'']] [''spam'', ''ham''] False))) 0 ''buy'' = 0" by code_simp
  have a4: "0 < p_spam (snd (train init [[''buy'', ''now''], [''hello'', ''friend'']] [''spam'', ''ham''] False))" by code_simp
  have a5: "0 \<le> p_ham (snd (train init [[''buy'', ''now''], [''hello'', ''friend'']] [''spam'', ''ham''] False))" by code_simp
  have a6: "\<forall>v \<in> set [''buy'', ''now'']. v \<in> words (snd (train init [[''buy'', ''now''], [''hello'', ''friend'']] [''spam'', ''ham''] False)) \<longrightarrow>
            0 < dd_get (p_word_given_spam (snd (train init [[''buy'', ''now''], [''hello'', ''friend'']] [''spam'', ''ham''] False))) 0 v \<and> 0 \<le> dd_get (p_word_given_ham (snd (train init [[''buy'', ''now''], [''hello'', ''friend'']] [''spam'', ''ham''] False))) 0 v"
    by code_simp
  have b1: "''hello'' \<in> set [''hello'']" by simp
  have b2: "''hello'' \<in> words (snd (train init [[''buy'', ''now''], [''hello'', ''friend'']] [''spam'', ''ham''] False))" by code_simp
  have b3: "dd_get (p_word_given_spam (snd (train init [[''buy'', ''now''], [''hello'', ''friend'']] [''spam'', ''ham''] False))) 0 ''hello'' = 0" by code_simp
  note t = predict_log_mode_zero_probability
    [of "(snd (train init [[''buy'', ''now''], [''hello'', ''friend'']] [''spam'', ''ham''] False))" "[]::string list list" "''buy''" "[''buy'', ''now'']"]
  note u = predict_log_mode_zero_probability
    [of "(snd (train init [[''buy'', ''now''], [''hello'', ''friend'']] [''spam'', ''ham''] False))" "[]::string list list" "''hello''" "[''hello'']"]
  note r1 = mp [OF t [THEN conjunct2, THEN conjunct2]
      conjI [OF a4 conjI [OF a5 conjI [OF a6 conjI [OF a1 conjI [OF a2 a3]]]]]]
  note r2 = mp [OF u [THEN conjunct2, THEN conjunct1] conjI [OF b1 conjI [OF b2 b3]]]
  show ?thesis
    by (intro conjI a1 a2 a3 b1 b2 b3 r1 [THEN conjunct2, THEN conjunct1]
        r1 [THEN conjunct2, THEN conjunct2] r2 [THEN conjunct2])
qed

text \<open>
  C3 as the claim states it fails on the specification's own scenario: trained without
  smoothing, the word buy has ham probability 0, and the log mode returns a label.
\<close>

theorem predict_log_mode_counterexample:
  "fst (train init [[''buy'', ''now''], [''hello'', ''friend'']] [''spam'', ''ham''] False) = Inr ()
   \<and> ''buy'' \<in> words (snd (train init [[''buy'', ''now''], [''hello'', ''friend'']] [''spam'', ''ham''] False))
   \<and> dd_get (p_word_given_ham (snd (train init [[''buy'', ''now''], [''hello'', ''friend'']] [''spam'', ''ham''] False))) 0 ''buy'' = 0
   \<and> snd (log_scores (snd (train init [[''buy'', ''now''], [''hello'', ''friend'']] [''spam'', ''ham''] False)) [''buy'', ''now'']) = NegInf
   \<and> predict (snd (train init [[''buy'', ''now''], [''hello'', ''friend'']] [''spam'', ''ham''] False)) [[''buy'', ''now'']] True = Inr [''spam'']"
proof -
  have f: "fst (train init [[''buy'', ''now''], [''hello'', ''friend'']] [''spam'', ''ham''] False) = Inr ()"
    by code_simp
  have a1: "''buy'' \<in> set [''buy'', ''now'']" by simp
  have a2: "''buy'' \<in> words (snd (train init [[''buy'', ''now''], [''hello'', ''friend'']] [''spam'', ''ham''] False))" by code_simp
  have a3: "dd_get (p_word_given_ham (snd (train init [[''buy'', ''now''], [''hello'', ''friend'']] [''spam'', ''ham''] False))) 0 ''buy'' = 0" by code_simp
  have a4: "0 < p_spam (snd (train init [[''buy'', ''now''], [''hello'', ''friend'']] [''spam'', ''ham''] False))" by code_simp
  have a5: "0 \<le> p_ham (snd (train init [[''buy'', ''now''], [''hello'', ''friend'']] [''spam'', ''ham''] False))" by code_simp
  have a6: "\<forall>v \<in> set [''buy'', ''now'']. v \<in> words (snd (train init [[''buy'', ''now''], [''hello'', ''friend'']] [''spam'', ''ham''] False)) \<longrightarrow>
            0 < dd_get (p_word_given_spam (snd (train init [[''buy'', ''now''], [''hello'', ''friend'']] [''spam'', ''ham''] False))) 0 v \<and> 0 \<le> dd_get (p_word_given_ham (snd (train init [[''buy'', ''now''], [''hello'', ''friend'']] [''spam'', ''ham''] False))) 0 v"
    by code_simp
  note r = log_mode_ham_zero [OF a4 a5 a6 a1 a2 a3]
  have p: "predict (snd (train init [[''buy'', ''now''], [''hello'', ''friend'']] [''spam'', ''ham''] False)) [[''buy'', ''now'']] True = Inr [''spam'']"
    by (simp only: predict_def predict_log.simps r [THEN conjunct2, THEN conjunct2] if_True)
  show ?thesis
    by (intro conjI f a2 a3 r [THEN conjunct2, THEN conjunct1] p)
qed

end
